theory Spec2Isabelle
  imports Complex_Main "HOL-Library.Word"
begin

section \<open>The search page of the donation exchange (src/pages/Search.tsx)\<close>

text \<open>
  The component keeps its data in React state cells and reacts to user events, to the
  expiry of debounce timers and to the completion of remote calls. The embedding follows
  the source: the state cells are one record, every handler is a function on that record,
  an \<^verbatim>\<open>await\<close> splits an async function into the part before the remote call and
  the part that runs on its completion, and a thrown value is the left summand of a sum.

  Text that comes from the user or from the store (queries, titles) is a JavaScript string,
  a sequence of UTF-16 code units, so that \<^verbatim>\<open>query.length\<close> is \<open>length\<close>.
  Identifiers written in the source (table and column names, the category list) are
  ordinary string literals.
\<close>

subsection \<open>Data\<close>

type_synonym js_string = "16 word list"

datatype js_error = JsError js_string

record lister =
  full_name :: js_string
  avatar_url :: js_string

record SearchResult =
  id_sr :: js_string
  title :: js_string
  description :: js_string
  photos :: "js_string list"
  category :: js_string
  condition :: js_string
  tags :: "js_string list"
  created_at :: js_string
  location :: js_string
  user :: lister

text \<open>A row of the suggestion query, which selects the title column only.\<close>

record title_row =
  row_title :: js_string

datatype ViewMode = grid_mode | list_mode

datatype SortOption = newest | oldest | relevance

definition ITEMS_PER_PAGE :: int where
  "ITEMS_PER_PAGE = 12"

text \<open>
  The state cells of the component (lines 42 to 55). \<open>searchParams\<close> holds the value of
  the URL parameter \<^verbatim>\<open>q\<close>, the only parameter the page ever sets; \<open>None\<close> is a URL
  without it.
\<close>

record view_state =
  searchParams :: "js_string option"
  results :: "SearchResult list"
  loading :: bool
  viewMode :: ViewMode
  showFilters :: bool
  suggestions :: "js_string list"
  totalResults :: int
  page :: int
  selectedCategories :: "string list"
  selectedConditions :: "string list"
  sortBy :: SortOption
  priceRange :: "int \<times> int"

definition initial_state :: "js_string option \<Rightarrow> view_state" where
  "initial_state url_q =
     \<lparr>searchParams = url_q, results = [], loading = False, viewMode = grid_mode,
      showFilters = False, suggestions = [], totalResults = 0, page = 1,
      selectedCategories = [], selectedConditions = [], sortBy = newest,
      priceRange = (0, 1000)\<rparr>"

definition categories :: "string list" where
  "categories = [''Furniture'', ''Electronics'', ''Clothing'', ''Books'', ''Kitchen'',
     ''Sports'', ''Toys'', ''Tools'', ''Other'']"

definition conditions :: "(string \<times> string) list" where
  "conditions = [(''LIKE_NEW'', ''Like New''), (''GOOD'', ''Good''), (''WORN'', ''Worn''),
     (''BROKEN'', ''Broken'')]"

text \<open>\<^verbatim>\<open>searchParams.get('q') || ''\<close>\<close>

definition query_param :: "view_state \<Rightarrow> js_string" where
  "query_param s = (case searchParams s of None \<Rightarrow> [] | Some v \<Rightarrow> v)"

subsection \<open>Remote calls\<close>

text \<open>
  What the query builder of the store client is given before the call is awaited: one field
  for each builder method the page uses, \<open>None\<close> where the method is not called.
\<close>

record remote_request =
  rq_from :: string
  rq_select :: string
  rq_count :: "string option"
  rq_textSearch :: "string \<times> js_string"
  rq_order :: "(string \<times> bool) option"
  rq_range :: "(int \<times> int) option"
  rq_limit :: "nat option"

text \<open>
  The outcome of an awaited call: the promise rejects, or it resolves to an object with the
  fields \<^verbatim>\<open>data\<close>, \<^verbatim>\<open>error\<close> and \<^verbatim>\<open>count\<close>, each of which may be null.
\<close>

datatype 'row response =
    Rejected js_error
  | Resolved (data: "'row list option") (error: "js_error option") (count: "int option")

type_synonym console = "(string \<times> js_error) list"

subsection \<open>The debounced search (lines 77 to 107)\<close>

text \<open>
  The request of lines 83 to 94. The callback is a closure over the render in which it was
  created; \<open>scope\<close> is the state of that render, \<open>query\<close> is the argument. The column
  list of \<^verbatim>\<open>select\<close> is written without the line breaks of the template literal.
\<close>

definition search_request :: "view_state \<Rightarrow> js_string \<Rightarrow> remote_request" where
  "search_request scope query =
     \<lparr>rq_from = ''announcements'',
      rq_select = ''*, user:user_id (full_name, avatar_url)'',
      rq_count = Some ''exact'',
      rq_textSearch = (''title'', query),
      rq_order = Some (''created_at'', False),
      rq_range = Some ((page scope - 1) * ITEMS_PER_PAGE, page scope * ITEMS_PER_PAGE - 1),
      rq_limit = None\<rparr>"

text \<open>
  Lines 79 to 94, up to the \<^verbatim>\<open>await\<close>: the state after the synchronous part and the
  request that is sent, if any. The setters act on the current state \<open>s\<close>.
\<close>

definition debouncedSearch_start ::
  "view_state \<Rightarrow> js_string \<Rightarrow> view_state \<Rightarrow> view_state \<times> remote_request option" where
  "debouncedSearch_start scope query s =
     (if query = [] then (s, None)
      else (s\<lparr>loading := True\<rparr>, Some (search_request scope query)))"

text \<open>Lines 96 to 99, the rest of the \<^verbatim>\<open>try\<close> block; \<open>Inl\<close> is a thrown value.\<close>

definition debouncedSearch_try :: "SearchResult response \<Rightarrow> view_state \<Rightarrow> js_error + view_state" where
  "debouncedSearch_try resp s =
     (case resp of
        Rejected e \<Rightarrow> Inl e
      | Resolved d err c \<Rightarrow>
          (case err of
             Some e \<Rightarrow> Inl e
           | None \<Rightarrow>
               Inr (s\<lparr>results := (case d of None \<Rightarrow> [] | Some rows \<Rightarrow> rows),
                      totalResults := (case c of None \<Rightarrow> 0 | Some n \<Rightarrow> n)\<rparr>)))"

text \<open>
  Lines 96 to 104 with \<^verbatim>\<open>catch\<close> and \<^verbatim>\<open>finally\<close>: how the async function completes once
  the call has. \<open>Inl\<close> would be a rejection of the promise the function returned.
\<close>

definition debouncedSearch_resume ::
  "SearchResult response \<Rightarrow> view_state \<times> console \<Rightarrow> js_error + view_state \<times> console" where
  "debouncedSearch_resume resp sl =
     (case sl of (s, out) \<Rightarrow>
        (case debouncedSearch_try resp s of
           Inr s' \<Rightarrow> Inr (s'\<lparr>loading := False\<rparr>, out)
         | Inl e \<Rightarrow> Inr (s\<lparr>loading := False\<rparr>, out @ [(''Error searching:'', e)])))"

subsection \<open>Suggestions (lines 110 to 129)\<close>

definition suggestion_request :: "js_string \<Rightarrow> remote_request" where
  "suggestion_request query =
     \<lparr>rq_from = ''announcements'',
      rq_select = ''title'',
      rq_count = None,
      rq_textSearch = (''title'', query),
      rq_order = None,
      rq_range = None,
      rq_limit = Some 5\<rparr>"

definition loadSuggestions_start ::
  "js_string \<Rightarrow> view_state \<Rightarrow> view_state \<times> remote_request option" where
  "loadSuggestions_start query s =
     (if query = [] \<or> length query < 2 then (s\<lparr>suggestions := []\<rparr>, None)
      else (s, Some (suggestion_request query)))"

definition loadSuggestions_try :: "title_row response \<Rightarrow> view_state \<Rightarrow> js_error + view_state" where
  "loadSuggestions_try resp s =
     (case resp of
        Rejected e \<Rightarrow> Inl e
      | Resolved d err c \<Rightarrow>
          (case err of
             Some e \<Rightarrow> Inl e
           | None \<Rightarrow>
               Inr (s\<lparr>suggestions := (case d of None \<Rightarrow> [] | Some rows \<Rightarrow> map row_title rows)\<rparr>)))"

definition loadSuggestions_resume ::
  "title_row response \<Rightarrow> view_state \<times> console \<Rightarrow> js_error + view_state \<times> console" where
  "loadSuggestions_resume resp sl =
     (case sl of (s, out) \<Rightarrow>
        (case loadSuggestions_try resp s of
           Inr s' \<Rightarrow> Inr (s', out)
         | Inl e \<Rightarrow> Inr (s, out @ [(''Error loading suggestions:'', e)])))"

subsection \<open>Handlers on the state (lines 136 to 144, 236 to 243, 261 to 268, 312 to 332)\<close>

definition handleSearch :: "js_string \<Rightarrow> view_state \<Rightarrow> view_state" where
  "handleSearch query s = s\<lparr>searchParams := Some query, page := 1\<rparr>"

definition handleFilterChange :: "view_state \<Rightarrow> view_state" where
  "handleFilterChange s = s\<lparr>page := 1\<rparr>"

text \<open>
  The \<^verbatim>\<open>onChange\<close> of a category checkbox; \<open>checked\<close> is \<^verbatim>\<open>e.target.checked\<close>, the
  state of the box after the click.
\<close>

definition category_onChange :: "bool \<Rightarrow> string \<Rightarrow> view_state \<Rightarrow> view_state" where
  "category_onChange checked cat s =
     handleFilterChange
       (s\<lparr>selectedCategories :=
            (if checked then selectedCategories s @ [cat]
             else filter (\<lambda>c. c \<noteq> cat) (selectedCategories s))\<rparr>)"

definition condition_onChange :: "bool \<Rightarrow> string \<Rightarrow> view_state \<Rightarrow> view_state" where
  "condition_onChange checked cond s =
     handleFilterChange
       (s\<lparr>selectedConditions :=
            (if checked then selectedConditions s @ [cond]
             else filter (\<lambda>c. c \<noteq> cond) (selectedConditions s))\<rparr>)"

text \<open>
  The box is a controlled input whose \<^verbatim>\<open>checked\<close> attribute is
  \<^verbatim>\<open>selectedCategories.includes(category)\<close> (line 235), so a click reports the opposite.
\<close>

definition category_toggle :: "string \<Rightarrow> view_state \<Rightarrow> view_state" where
  "category_toggle cat s = category_onChange (cat \<notin> set (selectedCategories s)) cat s"

definition condition_toggle :: "string \<Rightarrow> view_state \<Rightarrow> view_state" where
  "condition_toggle cond s = condition_onChange (cond \<notin> set (selectedConditions s)) cond s"

text \<open>The remove button of an active filter chip (lines 312 to 315 and 329 to 332).\<close>

definition category_chip_onClick :: "string \<Rightarrow> view_state \<Rightarrow> view_state" where
  "category_chip_onClick cat s =
     handleFilterChange (s\<lparr>selectedCategories := filter (\<lambda>c. c \<noteq> cat) (selectedCategories s)\<rparr>)"

definition condition_chip_onClick :: "string \<Rightarrow> view_state \<Rightarrow> view_state" where
  "condition_chip_onClick cond s =
     handleFilterChange (s\<lparr>selectedConditions := filter (\<lambda>c. c \<noteq> cond) (selectedConditions s)\<rparr>)"

subsection \<open>Pagination (lines 434 to 456)\<close>

text \<open>
  \<^verbatim>\<open>Math.ceil(totalResults / ITEMS_PER_PAGE)\<close>. The quotient of the source is a double;
  for every count below \<open>2 ^ 53\<close> its ceiling is the ceiling of the exact quotient.
\<close>

definition pageCount :: "int \<Rightarrow> int" where
  "pageCount n = \<lceil>real_of_int n / real_of_int ITEMS_PER_PAGE\<rceil>"

record pagination_view =
  previous_disabled :: bool
  page_label :: "int \<times> int"
  next_disabled :: bool

text \<open>
  The controls are part of the result branch of the render (lines 345 to 349) and are
  guarded by line 434.
\<close>

definition pagination :: "view_state \<Rightarrow> pagination_view option" where
  "pagination s =
     (if loading s then None
      else if length (results s) > 0 then
        (if totalResults s > ITEMS_PER_PAGE then
           Some \<lparr>previous_disabled = (page s = 1),
                 page_label = (page s, pageCount (totalResults s)),
                 next_disabled = (page s \<ge> pageCount (totalResults s))\<rparr>
         else None)
      else None)"

subsection \<open>The page in time: renders, the debouncer and calls in flight\<close>

text \<open>
  Three mechanisms of the libraries the page is written against decide when the functions
  above run. They are modelled as the libraries document them.
  \<^item> \<^verbatim>\<open>debounce(f, 300)\<close> with its default options calls \<open>f\<close> on the trailing edge only:
    300 ms after the latest call of the debounced function, with the argument of that call.
    A debounced function has at most one armed call; calling it again re-arms it.
  \<^item> \<^verbatim>\<open>useCallback(..., [page])\<close> keeps the debounced function of an earlier render until
    \<open>page\<close> changes, and then installs a new one, a closure over the new render. The
    old one is not cancelled: a call it has armed still fires, in the old scope.
  \<^item> The effect of lines 131 to 134 runs after a render in which the search parameters, the
    page or the debounced function have changed, and calls the current debounced function
    with the query of the URL.
  Time is counted in milliseconds.
\<close>

definition DEBOUNCE_WAIT :: nat where
  "DEBOUNCE_WAIT = 300"

datatype fetch_kind = SearchFetch | SuggestFetch

text \<open>
  \<open>view\<close> is the current state; \<open>cb_scope\<close> the render the current debounced function
  closes over and \<open>pending\<close> its armed call (deadline and argument); \<open>orphaned\<close> the
  armed calls of superseded debounced functions, oldest first; \<open>inflight\<close> the calls that
  have been sent and have not completed, numbered in the order of sending by \<open>next_id\<close>.
\<close>

record world =
  view :: view_state
  cb_scope :: view_state
  pending :: "(nat \<times> js_string) option"
  orphaned :: "(nat \<times> view_state \<times> js_string) list"
  clock :: nat
  inflight :: "(nat \<times> fetch_kind \<times> remote_request) list"
  next_id :: nat
  console_out :: console

text \<open>The first render and its effect.\<close>

definition mount :: "js_string option \<Rightarrow> world" where
  "mount url_q =
     \<lparr>view = initial_state url_q, cb_scope = initial_state url_q,
      pending = Some (DEBOUNCE_WAIT, query_param (initial_state url_q)),
      orphaned = [], clock = 0, inflight = [], next_id = 0, console_out = []\<rparr>"

definition dispatch :: "fetch_kind \<Rightarrow> remote_request \<Rightarrow> world \<Rightarrow> world" where
  "dispatch k rq w = w\<lparr>inflight := inflight w @ [(next_id w, k, rq)], next_id := Suc (next_id w)\<rparr>"

text \<open>A debounce timer expires and the search function is called in the scope it closes over.\<close>

definition invoke_search :: "view_state \<Rightarrow> js_string \<Rightarrow> world \<Rightarrow> world" where
  "invoke_search scope query w =
     (case debouncedSearch_start scope query (view w) of
        (s', None) \<Rightarrow> w\<lparr>view := s'\<rparr>
      | (s', Some rq) \<Rightarrow> dispatch SearchFetch rq (w\<lparr>view := s'\<rparr>))"

text \<open>
  A handler has produced the state \<open>s'\<close>: the render that follows, \<^verbatim>\<open>useCallback\<close>
  and the effect. The search parameters count as changed when the value of \<^verbatim>\<open>q\<close> is
  another one; a render in which neither they nor the page changed runs no effect.
\<close>

definition commit :: "view_state \<Rightarrow> world \<Rightarrow> world" where
  "commit s' w =
     (let page_changed = (page s' \<noteq> page (view w));
          params_changed = (searchParams s' \<noteq> searchParams (view w));
          w1 = (if page_changed
                then w\<lparr>view := s', cb_scope := s',
                       orphaned := orphaned w @
                         (case pending w of None \<Rightarrow> [] | Some (dl, a) \<Rightarrow> [(dl, cb_scope w, a)]),
                       pending := None\<rparr>
                else w\<lparr>view := s'\<rparr>)
      in if page_changed \<or> params_changed
         then w1\<lparr>pending := Some (clock w + DEBOUNCE_WAIT, query_param s')\<rparr>
         else w1)"

text \<open>Time passes: the armed calls that are due fire, the oldest debounced function first.\<close>

definition fire_orphans :: "world \<Rightarrow> world" where
  "fire_orphans w =
     foldl (\<lambda>a (dl, scope, q). invoke_search scope q a)
       (w\<lparr>orphaned := filter (\<lambda>(dl, scope, q). clock w < dl) (orphaned w)\<rparr>)
       (filter (\<lambda>(dl, scope, q). dl \<le> clock w) (orphaned w))"

definition fire_pending :: "world \<Rightarrow> world" where
  "fire_pending w =
     (case pending w of
        None \<Rightarrow> w
      | Some (dl, q) \<Rightarrow>
          if dl \<le> clock w then invoke_search (cb_scope w) q (w\<lparr>pending := None\<rparr>) else w)"

definition tick :: "nat \<Rightarrow> world \<Rightarrow> world" where
  "tick d w = fire_pending (fire_orphans (w\<lparr>clock := clock w + d\<rparr>))"

text \<open>
  A call in flight completes and the async function that awaits it resumes. The
  continuation carries no mark of the call it belongs to: it applies whatever arrives.
\<close>

definition search_response :: "nat \<Rightarrow> SearchResult response \<Rightarrow> world \<Rightarrow> world" where
  "search_response i resp w =
     (case map_of (inflight w) i of
        Some (SearchFetch, rq) \<Rightarrow>
          (case debouncedSearch_resume resp (view w, console_out w) of
             Inr (s', out) \<Rightarrow>
               w\<lparr>view := s', console_out := out,
                 inflight := filter (\<lambda>e. fst e \<noteq> i) (inflight w)\<rparr>
           | Inl e \<Rightarrow> w\<lparr>inflight := filter (\<lambda>e. fst e \<noteq> i) (inflight w)\<rparr>)
      | _ \<Rightarrow> w)"

definition suggest_response :: "nat \<Rightarrow> title_row response \<Rightarrow> world \<Rightarrow> world" where
  "suggest_response i resp w =
     (case map_of (inflight w) i of
        Some (SuggestFetch, rq) \<Rightarrow>
          (case loadSuggestions_resume resp (view w, console_out w) of
             Inr (s', out) \<Rightarrow>
               w\<lparr>view := s', console_out := out,
                 inflight := filter (\<lambda>e. fst e \<noteq> i) (inflight w)\<rparr>
           | Inl e \<Rightarrow> w\<lparr>inflight := filter (\<lambda>e. fst e \<noteq> i) (inflight w)\<rparr>)
      | _ \<Rightarrow> w)"

text \<open>
  The search box (lines 159 to 162) and a suggestion button (lines 170 to 173). The setters
  called by one handler are batched: one render follows the handler, with all the updates.
  The synchronous part of \<^verbatim>\<open>loadSuggestions\<close> runs inside the handler, so its remote call
  is sent there.
\<close>

definition input_onChange :: "js_string \<Rightarrow> world \<Rightarrow> world" where
  "input_onChange v w =
     (case loadSuggestions_start v (handleSearch v (view w)) of
        (s', None) \<Rightarrow> commit s' w
      | (s', Some rq) \<Rightarrow> commit s' (dispatch SuggestFetch rq w))"

definition suggestion_onClick :: "js_string \<Rightarrow> world \<Rightarrow> world" where
  "suggestion_onClick suggestion w =
     commit ((handleSearch suggestion (view w))\<lparr>suggestions := []\<rparr>) w"

text \<open>The setter of the page cell, and the page buttons that call it (lines 438 and 448).\<close>

definition setPage :: "int \<Rightarrow> world \<Rightarrow> world" where
  "setPage p w = commit ((view w)\<lparr>page := p\<rparr>) w"

definition previous_onClick :: "world \<Rightarrow> world" where
  "previous_onClick w = setPage (page (view w) - 1) w"

definition next_onClick :: "world \<Rightarrow> world" where
  "next_onClick w = setPage (page (view w) + 1) w"

text \<open>
  Everything that can happen to the page. A control acts only where the render shows it
  enabled: a suggestion when it is listed, the filter boxes and chips when the filter panel
  is open, a page button when the pagination is rendered and the button is not disabled.
\<close>

datatype event =
    InputChange js_string
  | SuggestionClick nat
  | FiltersButton
  | ViewModeButton ViewMode
  | SortSelect SortOption
  | CategoryBox string
  | ConditionBox string
  | PriceLow int
  | PriceHigh int
  | CategoryChip string
  | ConditionChip string
  | PreviousButton
  | NextButton
  | Tick nat
  | SearchCompletes nat "SearchResult response"
  | SuggestCompletes nat "title_row response"

fun step :: "world \<Rightarrow> event \<Rightarrow> world" where
  "step w (InputChange v) = input_onChange v w"
| "step w (SuggestionClick i) =
     (if i < length (suggestions (view w)) then suggestion_onClick (suggestions (view w) ! i) w
      else w)"
| "step w FiltersButton = commit ((view w)\<lparr>showFilters := \<not> showFilters (view w)\<rparr>) w"
| "step w (ViewModeButton m) = commit ((view w)\<lparr>viewMode := m\<rparr>) w"
| "step w (SortSelect so) = commit ((view w)\<lparr>sortBy := so\<rparr>) w"
| "step w (CategoryBox c) =
     (if showFilters (view w) \<and> c \<in> set categories
      then commit (category_toggle c (view w)) w else w)"
| "step w (ConditionBox c) =
     (if showFilters (view w) \<and> c \<in> set (map fst conditions)
      then commit (condition_toggle c (view w)) w else w)"
| "step w (PriceLow n) =
     (if showFilters (view w)
      then commit ((view w)\<lparr>priceRange := (n, snd (priceRange (view w)))\<rparr>) w else w)"
| "step w (PriceHigh n) =
     (if showFilters (view w)
      then commit ((view w)\<lparr>priceRange := (fst (priceRange (view w)), n)\<rparr>) w else w)"
| "step w (CategoryChip c) =
     (if showFilters (view w) \<and> c \<in> set (selectedCategories (view w))
      then commit (category_chip_onClick c (view w)) w else w)"
| "step w (ConditionChip c) =
     (if showFilters (view w) \<and> c \<in> set (selectedConditions (view w))
      then commit (condition_chip_onClick c (view w)) w else w)"
| "step w PreviousButton =
     (case pagination (view w) of
        None \<Rightarrow> w
      | Some p \<Rightarrow> if previous_disabled p then w else previous_onClick w)"
| "step w NextButton =
     (case pagination (view w) of
        None \<Rightarrow> w
      | Some p \<Rightarrow> if next_disabled p then w else next_onClick w)"
| "step w (Tick d) = tick d w"
| "step w (SearchCompletes i resp) = search_response i resp w"
| "step w (SuggestCompletes i resp) = suggest_response i resp w"

definition run :: "event list \<Rightarrow> world \<Rightarrow> world" where
  "run es w = foldl step w es"

subsection \<open>Derived notions used in the statements\<close>

text \<open>The ResultPage of the specification: the results shown and their total count.\<close>

definition result_page :: "view_state \<Rightarrow> SearchResult list \<times> int" where
  "result_page s = (results s, totalResults s)"

text \<open>What lines 98 and 99 store from a response that resolved without an error.\<close>

definition page_of_response :: "SearchResult list option \<Rightarrow> int option \<Rightarrow> SearchResult list \<times> int" where
  "page_of_response d c =
     ((case d of None \<Rightarrow> [] | Some rows \<Rightarrow> rows), (case c of None \<Rightarrow> 0 | Some n \<Rightarrow> n))"

text \<open>A remote call fails: the promise rejects, or it resolves with an error object.\<close>

definition failed :: "'row response \<Rightarrow> bool" where
  "failed resp = (case resp of Rejected e \<Rightarrow> True | Resolved d err c \<Rightarrow> err \<noteq> None)"


text \<open>The current debounced function closes over a render with the current page.\<close>

definition scope_current :: "world \<Rightarrow> bool" where
  "scope_current w = (page (cb_scope w) = page (view w))"

subsection \<open>Example data\<close>

text \<open>An ASCII literal as a JavaScript string.\<close>

definition str :: "string \<Rightarrow> js_string" where
  "str s = map (\<lambda>c. of_nat (of_char c)) s"

definition example_item :: "string \<Rightarrow> SearchResult" where
  "example_item t =
     \<lparr>id_sr = str t, title = str t, description = [], photos = [], category = str ''Other'',
      condition = str ''GOOD'', tags = [], created_at = [], location = [],
      user = \<lparr>full_name = str ''Ann'', avatar_url = []\<rparr>\<rparr>"

text \<open>
  A visitor opens the page on the query \<open>la\<close> and, after the search for it has been sent,
  types on to \<open>lamp\<close>; the response to the second search arrives before the response to
  the first.
\<close>

definition stale_trace :: "event list" where
  "stale_trace =
     [Tick 300, InputChange (str ''lamp''), Tick 300,
      SearchCompletes 2 (Resolved (Some [example_item ''Lamp'']) None (Some 1)),
      SearchCompletes 0 (Resolved (Some [example_item ''Ladder'']) None (Some 1))]"

text \<open>
  Thirteen rows match \<open>lamp\<close>: the first page arrives, the visitor presses Next, and 299 ms
  pass.
\<close>

definition next_page_trace :: "event list" where
  "next_page_trace =
     [Tick 300,
      SearchCompletes 0 (Resolved (Some (replicate 12 (example_item ''Lamp''))) None (Some 13)),
      NextButton, Tick 299]"


section \<open>Properties\<close>

subsection \<open>Auxiliary facts\<close>

lemma pageCount_div: "pageCount n = (n + 11) div 12"
proof -
  have "pageCount n = - (- n div 12)"
    unfolding pageCount_def ITEMS_PER_PAGE_def using ceiling_divide_eq_div [of n 12] by simp
  moreover have "n + 11 = 12 * ((n + 11) div 12) + (n + 11) mod 12"
    by simp
  moreover have "- n = 12 * (- n div 12) + (- n) mod 12"
    by simp
  moreover have "0 \<le> (n + 11) mod 12" "(n + 11) mod 12 < 12" "0 \<le> (- n) mod 12" "(- n) mod 12 < 12"
    by simp_all
  ultimately show ?thesis by linarith
qed

lemma pageCount_bounds: "12 * (pageCount n - 1) < n \<and> n \<le> 12 * pageCount n"
proof -
  define k where "k = (n + 11) div 12"
  define r where "r = (n + 11) mod 12"
  have kr: "n + 11 = 12 * k + r" "0 \<le> r" "r < 12"
    by (simp_all add: k_def r_def)
  have "12 * (k - 1) < n"
    using kr by simp
  moreover have "n \<le> 12 * k"
    using kr by linarith
  ultimately show ?thesis by (simp only: pageCount_div k_def)
qed

lemmas world_defs =
  run_def tick_def fire_pending_def fire_orphans_def invoke_search_def dispatch_def commit_def
  Let_def mount_def initial_state_def query_param_def input_onChange_def suggestion_onClick_def
  handleSearch_def loadSuggestions_start_def debouncedSearch_start_def search_response_def
  suggest_response_def debouncedSearch_resume_def debouncedSearch_try_def
  loadSuggestions_resume_def loadSuggestions_try_def DEBOUNCE_WAIT_def ITEMS_PER_PAGE_def
  pagination_def setPage_def next_onClick_def previous_onClick_def search_request_def
  suggestion_request_def str_def pageCount_div

lemma commit_frame:
  "view (commit s w) = s" "inflight (commit s w) = inflight w" "next_id (commit s w) = next_id w"
  "clock (commit s w) = clock w" "console_out (commit s w) = console_out w"
  by (simp_all add: commit_def Let_def)

lemma commit_page_changed:
  "page s \<noteq> page (view w) \<Longrightarrow>
     pending (commit s w) = Some (clock w + DEBOUNCE_WAIT, query_param s) \<and> cb_scope (commit s w) = s"
  by (simp add: commit_def Let_def)

lemma commit_params_changed:
  "searchParams s \<noteq> searchParams (view w) \<Longrightarrow>
     pending (commit s w) = Some (clock w + DEBOUNCE_WAIT, query_param s)"
  by (simp add: commit_def Let_def)

lemma invoke_search_frame:
  "pending (invoke_search sc q w) = pending w" "cb_scope (invoke_search sc q w) = cb_scope w"
  "clock (invoke_search sc q w) = clock w" "orphaned (invoke_search sc q w) = orphaned w"
  "page (view (invoke_search sc q w)) = page (view w)"
  by (simp_all add: invoke_search_def debouncedSearch_start_def dispatch_def)

lemma invoke_search_nonempty:
  "q \<noteq> [] \<Longrightarrow> invoke_search sc q w =
     w\<lparr>view := (view w)\<lparr>loading := True\<rparr>,
       inflight := inflight w @ [(next_id w, SearchFetch, search_request sc q)],
       next_id := Suc (next_id w)\<rparr>"
  by (simp add: invoke_search_def debouncedSearch_start_def dispatch_def)

lemma fold_invoke_frame:
  "pending (foldl (\<lambda>a (dl, scope, q). invoke_search scope q a) w xs) = pending w \<and>
   cb_scope (foldl (\<lambda>a (dl, scope, q). invoke_search scope q a) w xs) = cb_scope w \<and>
   clock (foldl (\<lambda>a (dl, scope, q). invoke_search scope q a) w xs) = clock w \<and>
   orphaned (foldl (\<lambda>a (dl, scope, q). invoke_search scope q a) w xs) = orphaned w \<and>
   page (view (foldl (\<lambda>a (dl, scope, q). invoke_search scope q a) w xs)) = page (view w)"
  by (induction xs arbitrary: w) (auto simp: invoke_search_frame)

lemma fire_orphans_frame:
  "pending (fire_orphans w) = pending w" "cb_scope (fire_orphans w) = cb_scope w"
  "clock (fire_orphans w) = clock w" "page (view (fire_orphans w)) = page (view w)"
  by (simp_all add: fire_orphans_def fold_invoke_frame)

text \<open>When the page has changed, the call armed by the render fires 300 ms later.\<close>

lemma tick_page_fetch:
  assumes "page s \<noteq> page (view w)" "query_param s \<noteq> []"
  shows "inflight (tick DEBOUNCE_WAIT (commit s w)) \<noteq> [] \<and>
         snd (last (inflight (tick DEBOUNCE_WAIT (commit s w)))) =
           (SearchFetch, search_request s (query_param s))"
proof -
  let ?w1 = "(commit s w)\<lparr>clock := clock (commit s w) + DEBOUNCE_WAIT\<rparr>"
  let ?w2 = "fire_orphans ?w1"
  have p: "pending ?w2 = Some (clock w + DEBOUNCE_WAIT, query_param s)"
    using assms by (simp add: fire_orphans_frame commit_page_changed)
  have c: "clock ?w2 = clock w + DEBOUNCE_WAIT"
    by (simp add: fire_orphans_frame commit_frame)
  have sc: "cb_scope ?w2 = s"
    using assms by (simp add: fire_orphans_frame commit_page_changed)
  have "tick DEBOUNCE_WAIT (commit s w) = invoke_search s (query_param s) (?w2\<lparr>pending := None\<rparr>)"
    unfolding tick_def fire_pending_def using p c sc by simp
  then show ?thesis using assms(2) by (simp add: invoke_search_nonempty)
qed

lemma tick_page_armed:
  assumes "page s \<noteq> page (view w)" "d < DEBOUNCE_WAIT"
  shows "pending (tick d (commit s w)) = Some (clock w + DEBOUNCE_WAIT, query_param s)"
proof -
  let ?w2 = "fire_orphans ((commit s w)\<lparr>clock := clock (commit s w) + d\<rparr>)"
  have p: "pending ?w2 = Some (clock w + DEBOUNCE_WAIT, query_param s)"
    using assms by (simp add: fire_orphans_frame commit_page_changed)
  have c: "clock ?w2 = clock w + d"
    by (simp add: fire_orphans_frame commit_frame)
  show ?thesis unfolding tick_def fire_pending_def using p c assms(2) by simp
qed

text \<open>A timer that expires on the empty query changes nothing but the timer.\<close>

lemma tick_empty_query:
  assumes "pending w = Some (dl, [])" "orphaned w = []" "dl \<le> clock w + d"
  shows "tick d w = w\<lparr>clock := clock w + d, pending := None\<rparr>"
  using assms
  by (simp add: tick_def fire_pending_def fire_orphans_def invoke_search_def debouncedSearch_start_def)

lemma map_of_filter_fst:
  "map_of (filter (\<lambda>e. fst e \<noteq> i) xs) j = (if j = i then None else map_of xs j)"
  by (induction xs) auto

lemma search_response_resolved:
  "map_of (inflight w) i = Some (SearchFetch, rq) \<Longrightarrow>
   search_response i (Resolved d None c) w =
     w\<lparr>view := (view w)\<lparr>results := fst (page_of_response d c),
                         totalResults := snd (page_of_response d c), loading := False\<rparr>,
       inflight := filter (\<lambda>e. fst e \<noteq> i) (inflight w)\<rparr>"
  by (simp add: search_response_def debouncedSearch_resume_def debouncedSearch_try_def
      page_of_response_def)

lemma search_response_failed:
  "map_of (inflight w) i = Some (SearchFetch, rq) \<Longrightarrow> failed resp \<Longrightarrow>
   view (search_response i resp w) = (view w)\<lparr>loading := False\<rparr>"
  by (auto simp: search_response_def debouncedSearch_resume_def debouncedSearch_try_def failed_def
      split: response.splits option.splits)

text \<open>
  The scope of the current debounced function has the current page at the first render and
  after every event.
\<close>

lemma mount_scope_current: "scope_current (mount q)"
  by (simp add: scope_current_def mount_def)

lemma commit_scope_current: "scope_current w \<Longrightarrow> scope_current (commit s w)"
  by (simp add: scope_current_def commit_def Let_def)

lemma dispatch_scope_current: "scope_current w \<Longrightarrow> scope_current (dispatch k r w)"
  by (simp add: scope_current_def dispatch_def)

lemma tick_scope_current: "scope_current w \<Longrightarrow> scope_current (tick d w)"
  by (simp add: scope_current_def tick_def fire_pending_def fire_orphans_frame invoke_search_frame
      split: option.splits prod.splits)

lemma search_response_scope_current: "scope_current w \<Longrightarrow> scope_current (search_response i r w)"
  by (auto simp: scope_current_def search_response_def debouncedSearch_resume_def
      debouncedSearch_try_def
      split: option.splits prod.splits fetch_kind.splits sum.splits response.splits)

lemma suggest_response_scope_current: "scope_current w \<Longrightarrow> scope_current (suggest_response i r w)"
  by (auto simp: scope_current_def suggest_response_def loadSuggestions_resume_def
      loadSuggestions_try_def
      split: option.splits prod.splits fetch_kind.splits sum.splits response.splits)

lemma step_scope_current: "scope_current w \<Longrightarrow> scope_current (step w e)"
  by (cases e)
     (auto simp: commit_scope_current tick_scope_current search_response_scope_current
        suggest_response_scope_current dispatch_scope_current input_onChange_def
        suggestion_onClick_def previous_onClick_def next_onClick_def setPage_def
        split: option.splits prod.splits)

lemma run_scope_current: "scope_current w \<Longrightarrow> scope_current (run es w)"
  unfolding run_def by (induction es arbitrary: w) (auto simp: step_scope_current)

text \<open>The search box: the state and the scope after the handler and its render.\<close>

lemma input_onChange_view:
  "view (input_onChange v w) =
     (if length v < 2 then (handleSearch v (view w))\<lparr>suggestions := []\<rparr> else handleSearch v (view w))"
  by (auto simp: input_onChange_def loadSuggestions_start_def commit_frame)

lemma commit_scope_page:
  "scope_current w \<Longrightarrow> page (cb_scope (commit s w)) = page s"
  by (simp add: scope_current_def commit_def Let_def)

lemma input_onChange_scope:
  "scope_current w \<Longrightarrow> page (cb_scope (input_onChange v w)) = 1"
  by (auto simp: input_onChange_def loadSuggestions_start_def commit_scope_page
      dispatch_scope_current handleSearch_def)

lemma input_onChange_pending:
  "searchParams (view w) \<noteq> Some v \<Longrightarrow>
   pending (input_onChange v w) = Some (clock w + DEBOUNCE_WAIT, v)"
  by (auto simp: input_onChange_def loadSuggestions_start_def commit_params_changed
      handleSearch_def dispatch_def query_param_def)

lemma suggestion_onClick_pending:
  "searchParams (view w) \<noteq> Some v \<Longrightarrow>
   pending (suggestion_onClick v w) = Some (clock w + DEBOUNCE_WAIT, v)"
  by (simp add: suggestion_onClick_def commit_params_changed handleSearch_def query_param_def)

subsection \<open>Pagination arithmetic and the page buttons\<close>



text \<open>
  Claim C9. Where the pagination controls are rendered, Previous is disabled exactly when
  the current page is 1, and Next is disabled exactly when the current page is at least
  the page count, the ceiling of \<open>total / 12\<close>.
\<close>

theorem C9_page_buttons:
  assumes "pagination s = Some p"
  shows "(previous_disabled p \<longleftrightarrow> page s = 1) \<and>
         (next_disabled p \<longleftrightarrow> pageCount (totalResults s) \<le> page s) \<and>
         12 * (pageCount (totalResults s) - 1) < totalResults s \<and>
         totalResults s \<le> 12 * pageCount (totalResults s)"
  using assms pageCount_bounds [of "totalResults s"]
  by (auto simp: pagination_def split: if_splits)

text \<open>
  Witness for C9, the scenario of the specification: thirteen matching rows. On page 2,
  which shows one item, Next is disabled and Previous is enabled.
\<close>

theorem C9_page_buttons_witness:
  "pagination ((initial_state None)\<lparr>results := [example_item ''Lamp''], totalResults := 13,
       page := 2\<rparr>)
     = Some \<lparr>previous_disabled = False, page_label = (2, 2), next_disabled = True\<rparr> \<and>
   (False \<longleftrightarrow> (2::int) = 1) \<and> (True \<longleftrightarrow> pageCount 13 \<le> 2)"
proof -
  have "pagination ((initial_state None)\<lparr>results := [example_item ''Lamp''], totalResults := 13,
       page := 2\<rparr>)
     = Some \<lparr>previous_disabled = False, page_label = (2, 2), next_disabled = True\<rparr>"
    by (simp add: pagination_def initial_state_def ITEMS_PER_PAGE_def pageCount_div)
  from this C9_page_buttons [OF this] show ?thesis
    by simp
qed

subsection \<open>Filter toggles\<close>

text \<open>
  Claim C8. Clicking the checkbox of a category, or of a condition, twice returns the set
  of selected values to what it was, whether the value was selected before (off, then on)
  or not (on, then off). The array that holds the set may come back in another order: a
  value that is switched off and on again moves to the end.
\<close>

theorem C8_toggle_involution:
  "set (selectedCategories (category_toggle c (category_toggle c s))) = set (selectedCategories s) \<and>
   set (selectedConditions (condition_toggle c (condition_toggle c s))) = set (selectedConditions s) \<and>
   (c \<notin> set (selectedCategories s) \<longrightarrow>
      selectedCategories (category_toggle c (category_toggle c s)) = selectedCategories s) \<and>
   (c \<notin> set (selectedConditions s) \<longrightarrow>
      selectedConditions (condition_toggle c (condition_toggle c s)) = selectedConditions s)"
  by (auto simp: category_toggle_def category_onChange_def condition_toggle_def
      condition_onChange_def handleFilterChange_def filter_id_conv)

text \<open>
  Witness for C8. With Books and Toys selected, clicking Books twice (off, then on) gives
  the same set in another order; clicking Sports twice (on, then off) gives the same array.
\<close>

theorem C8_toggle_involution_witness:
  "selectedCategories (category_toggle ''Books'' (category_toggle ''Books''
      ((initial_state None)\<lparr>selectedCategories := [''Books'', ''Toys'']\<rparr>))) = [''Toys'', ''Books''] \<and>
   set [''Toys'', ''Books''] = set [''Books'', ''Toys''] \<and>
   ''Sports'' \<notin> set [''Books'', ''Toys''] \<and>
   selectedCategories (category_toggle ''Sports'' (category_toggle ''Sports''
      ((initial_state None)\<lparr>selectedCategories := [''Books'', ''Toys'']\<rparr>))) = [''Books'', ''Toys'']"
proof -
  have "selectedCategories (category_toggle ''Books'' (category_toggle ''Books''
      ((initial_state None)\<lparr>selectedCategories := [''Books'', ''Toys'']\<rparr>))) = [''Toys'', ''Books'']"
    by (simp add: category_toggle_def category_onChange_def handleFilterChange_def initial_state_def)
  moreover have "''Sports'' \<notin> set [''Books'', ''Toys'']"
    by simp
  ultimately show ?thesis
    using C8_toggle_involution [of "''Books''" "(initial_state None)\<lparr>selectedCategories := [''Books'', ''Toys'']\<rparr>"]
      C8_toggle_involution [of "''Sports''" "(initial_state None)\<lparr>selectedCategories := [''Books'', ''Toys'']\<rparr>"]
    by (simp add: initial_state_def)
qed

subsection \<open>The search request and the debounced search\<close>

text \<open>
  Claim C2. Two renders that agree on the query text and on the page send the same remote
  search request, whatever their selected categories, selected conditions, price range and
  sort mode are, and whatever the current state is when the call is made: the request is
  built from the query and the page alone.
\<close>

theorem C2_request_ignores_filters:
  assumes "page s1 = page s2" and "query_param s1 = query_param s2"
  shows "snd (debouncedSearch_start s1 (query_param s1) v1) =
         snd (debouncedSearch_start s2 (query_param s2) v2)"
  using assms by (simp add: debouncedSearch_start_def search_request_def)

text \<open>
  Witness for C2: the query \<open>lamp\<close> on page 1, once without filters and once with a category,
  a condition, a price range and another sort mode.
\<close>

theorem C2_request_ignores_filters_witness:
  "page (initial_state (Some (str ''lamp''))) =
     page ((initial_state (Some (str ''lamp'')))\<lparr>selectedCategories := [''Books''],
       selectedConditions := [''GOOD''], sortBy := oldest, priceRange := (5, 50)\<rparr>) \<and>
   query_param (initial_state (Some (str ''lamp''))) =
     query_param ((initial_state (Some (str ''lamp'')))\<lparr>selectedCategories := [''Books''],
       selectedConditions := [''GOOD''], sortBy := oldest, priceRange := (5, 50)\<rparr>) \<and>
   snd (debouncedSearch_start (initial_state (Some (str ''lamp''))) (str ''lamp'')
          (initial_state (Some (str ''lamp'')))) =
   snd (debouncedSearch_start
          ((initial_state (Some (str ''lamp'')))\<lparr>selectedCategories := [''Books''],
             selectedConditions := [''GOOD''], sortBy := oldest, priceRange := (5, 50)\<rparr>)
          (str ''lamp'')
          ((initial_state (Some (str ''lamp'')))\<lparr>selectedCategories := [''Books''],
             selectedConditions := [''GOOD''], sortBy := oldest, priceRange := (5, 50)\<rparr>))"
proof -
  let ?s1 = "initial_state (Some (str ''lamp''))"
  let ?s2 = "?s1\<lparr>selectedCategories := [''Books''], selectedConditions := [''GOOD''],
               sortBy := oldest, priceRange := (5, 50)\<rparr>"
  have p: "page ?s1 = page ?s2"
    by (simp add: initial_state_def)
  have q: "query_param ?s1 = query_param ?s2"
    by (simp add: initial_state_def query_param_def)
  have q1: "query_param ?s1 = str ''lamp''" and q2: "query_param ?s2 = str ''lamp''"
    by (simp_all add: initial_state_def query_param_def)
  from C2_request_ignores_filters [OF p q, of ?s1 ?s2] p q show ?thesis
    unfolding q1 q2 by simp
qed

text \<open>
  Claim C3. Called with the empty query, the search function returns before anything is
  sent and without touching the state: no remote call is issued, and the results and the
  total count on display stay as they were. So a debounce timer that expires on the empty
  query leaves everything but the timer as it was.
\<close>

theorem C3_empty_query:
  "debouncedSearch_start scope [] s = (s, None) \<and>
   invoke_search scope [] w = w \<and>
   (pending w = Some (dl, []) \<and> orphaned w = [] \<and> dl \<le> clock w + d \<longrightarrow>
      tick d w = w\<lparr>clock := clock w + d, pending := None\<rparr>)"
  by (simp add: debouncedSearch_start_def invoke_search_def tick_empty_query)

text \<open>
  Witness for C3: the page is opened without a query and the first timer expires; nothing
  is in flight, nothing is loading and the result page is the initial one.
\<close>

theorem C3_empty_query_witness:
  "pending (mount None) = Some (300, []) \<and> orphaned (mount None) = [] \<and>
   300 \<le> clock (mount None) + 300 \<and>
   tick 300 (mount None) = (mount None)\<lparr>clock := 300, pending := None\<rparr> \<and>
   inflight (tick 300 (mount None)) = [] \<and> next_id (tick 300 (mount None)) = 0 \<and>
   view (tick 300 (mount None)) = initial_state None"
proof -
  have h: "pending (mount None) = Some (300, [])" "orphaned (mount None) = []"
    "300 \<le> clock (mount None) + 300" "clock (mount None) = 0"
    by (simp_all add: mount_def DEBOUNCE_WAIT_def initial_state_def query_param_def)
  have "tick 300 (mount None) = (mount None)\<lparr>clock := 300, pending := None\<rparr>"
    using C3_empty_query [of _ _ "mount None" 300 300] h by simp
  then show ?thesis
    using h by (simp add: mount_def)
qed

text \<open>
  Claim C4. When the remote call of a search fails, by a rejected promise or by an error in
  the resolved object, the search function catches the failure and completes normally:
  nothing is thrown on, a diagnostic is written, loading is false afterwards and the
  results and the total count on display are unchanged.
\<close>

theorem C4_failed_search:
  assumes "failed resp"
  shows "(\<exists>e. debouncedSearch_resume resp (s, out) =
              Inr (s\<lparr>loading := False\<rparr>, out @ [(''Error searching:'', e)])) \<and>
         (map_of (inflight w) i = Some (SearchFetch, rq) \<longrightarrow>
            \<not> loading (view (search_response i resp w)) \<and>
            result_page (view (search_response i resp w)) = result_page (view w))"
proof -
  have "\<exists>e. debouncedSearch_resume resp (s, out) =
              Inr (s\<lparr>loading := False\<rparr>, out @ [(''Error searching:'', e)])"
    using assms
    by (auto simp: failed_def debouncedSearch_resume_def debouncedSearch_try_def
        split: response.splits option.splits)
  moreover have "\<not> loading (view (search_response i resp w)) \<and>
            result_page (view (search_response i resp w)) = result_page (view w)"
    if "map_of (inflight w) i = Some (SearchFetch, rq)"
    using search_response_failed [OF that assms] by (simp add: result_page_def)
  ultimately show ?thesis by blast
qed

text \<open>
  Witness for C4: the first page of \<open>lamp\<close> is on display, the visitor presses Next, and
  the call for the second page resolves with an error. The first page stays.
\<close>

theorem C4_failed_search_witness:
  "failed (Resolved None (Some (JsError (str ''timeout''))) None :: SearchResult response) \<and>
   map_of (inflight (run (next_page_trace @ [Tick 1]) (mount (Some (str ''lamp''))))) 1
     = Some (SearchFetch, search_request ((initial_state (Some (str ''lamp'')))\<lparr>page := 2\<rparr>) (str ''lamp'')) \<and>
   loading (view (run (next_page_trace @ [Tick 1]) (mount (Some (str ''lamp''))))) \<and>
   \<not> loading (view (search_response 1 (Resolved None (Some (JsError (str ''timeout''))) None)
      (run (next_page_trace @ [Tick 1]) (mount (Some (str ''lamp'')))))) \<and>
   result_page (view (search_response 1 (Resolved None (Some (JsError (str ''timeout''))) None)
      (run (next_page_trace @ [Tick 1]) (mount (Some (str ''lamp''))))))
     = (replicate 12 (example_item ''Lamp''), 13)"
proof -
  let ?w = "run (next_page_trace @ [Tick 1]) (mount (Some (str ''lamp'')))"
  let ?r = "Resolved None (Some (JsError (str ''timeout''))) None :: SearchResult response"
  have f: "failed ?r"
    by (simp add: failed_def)
  have i: "map_of (inflight ?w) 1
     = Some (SearchFetch, search_request ((initial_state (Some (str ''lamp'')))\<lparr>page := 2\<rparr>) (str ''lamp''))"
    by (simp add: next_page_trace_def world_defs)
  have l: "loading (view ?w)"
    by (simp add: next_page_trace_def world_defs)
  have p: "result_page (view ?w) = (replicate 12 (example_item ''Lamp''), 13)"
    by (simp add: next_page_trace_def world_defs result_page_def)
  from C4_failed_search [OF f, of _ _ ?w 1] f i l p show ?thesis
    by simp
qed

subsection \<open>Responses that arrive out of order\<close>

text \<open>
  Claim C1, as the code has it. When two search fetches A and B are in flight, A sent
  before B, and both resolve without an error, the result page on display after both
  responses is that of the response which arrived last: A's when B's response arrived
  first, B's when A's arrived first. No response is discarded.
\<close>

theorem C1_last_arrival_wins:
  assumes "map_of (inflight w) a = Some (SearchFetch, ra)"
      and "map_of (inflight w) b = Some (SearchFetch, rb)"
      and "a < b"
  shows "result_page (view (search_response a (Resolved dA None cA)
                             (search_response b (Resolved dB None cB) w)))
           = page_of_response dA cA \<and>
         result_page (view (search_response b (Resolved dB None cB)
                             (search_response a (Resolved dA None cA) w)))
           = page_of_response dB cB"
proof -
  let ?wb = "search_response b (Resolved dB None cB) w"
  let ?wa = "search_response a (Resolved dA None cA) w"
  have "map_of (inflight ?wb) a = Some (SearchFetch, ra)"
    using assms by (simp add: search_response_resolved [OF assms(2)] map_of_filter_fst)
  then have "result_page (view (search_response a (Resolved dA None cA) ?wb)) = page_of_response dA cA"
    by (simp add: search_response_resolved result_page_def)
  moreover have "map_of (inflight ?wa) b = Some (SearchFetch, rb)"
    using assms by (simp add: search_response_resolved [OF assms(1)] map_of_filter_fst)
  then have "result_page (view (search_response b (Resolved dB None cB) ?wa)) = page_of_response dB cB"
    by (simp add: search_response_resolved result_page_def)
  ultimately show ?thesis by simp
qed

text \<open>
  Witness for C1: the searches for \<open>la\<close> (call 0) and for \<open>lamp\<close> (call 2) are in flight;
  the response for \<open>lamp\<close> arrives first and the response for \<open>la\<close> second, and the
  page on display is the one for \<open>la\<close>.
\<close>

theorem C1_last_arrival_wins_witness:
  "map_of (inflight (run (take 3 stale_trace) (mount (Some (str ''la''))))) 0
     = Some (SearchFetch, search_request (initial_state (Some (str ''la''))) (str ''la'')) \<and>
   map_of (inflight (run (take 3 stale_trace) (mount (Some (str ''la''))))) 2
     = Some (SearchFetch, search_request (initial_state (Some (str ''la''))) (str ''lamp'')) \<and>
   (0::nat) < 2 \<and>
   result_page (view
     (search_response 0 (Resolved (Some [example_item ''Ladder'']) None (Some 1))
       (search_response 2 (Resolved (Some [example_item ''Lamp'']) None (Some 1))
         (run (take 3 stale_trace) (mount (Some (str ''la'')))))))
     = ([example_item ''Ladder''], 1)"
proof -
  let ?w = "run (take 3 stale_trace) (mount (Some (str ''la'')))"
  have a: "map_of (inflight ?w) 0
     = Some (SearchFetch, search_request (initial_state (Some (str ''la''))) (str ''la''))"
    by (simp add: stale_trace_def world_defs)
  have b: "map_of (inflight ?w) 2
     = Some (SearchFetch, search_request (initial_state (Some (str ''la''))) (str ''lamp''))"
    by (simp add: stale_trace_def world_defs)
  have c: "(0::nat) < 2"
    by simp
  from C1_last_arrival_wins [OF a b c] a b show ?thesis
    by (simp add: page_of_response_def)
qed

text \<open>
  Counterexample to C1 as stated. The search for \<open>la\<close> is sent first (call 0), the search
  for \<open>lamp\<close> second (call 2), and the response to the second arrives first. In the end
  the page shows the response to the first, stale call under the query \<open>lamp\<close>, and not
  the response to the call sent last.
\<close>

theorem C1_counterexample:
  "inflight (run (take 3 stale_trace) (mount (Some (str ''la'')))) =
     [(0, SearchFetch, search_request (initial_state (Some (str ''la''))) (str ''la'')),
      (1, SuggestFetch, suggestion_request (str ''lamp'')),
      (2, SearchFetch, search_request (initial_state (Some (str ''la''))) (str ''lamp''))] \<and>
   query_param (view (run stale_trace (mount (Some (str ''la''))))) = str ''lamp'' \<and>
   result_page (view (run stale_trace (mount (Some (str ''la''))))) = ([example_item ''Ladder''], 1) \<and>
   result_page (view (run stale_trace (mount (Some (str ''la''))))) \<noteq> ([example_item ''Lamp''], 1)"
  by (simp add: stale_trace_def world_defs result_page_def example_item_def)

subsection \<open>Page changes and the debouncer\<close>

text \<open>
  Claim C6, as the code has it. Setting the page to another number does not send a fetch
  at once: the render that follows installs a new debounced function and arms it for
  300 ms later; until then the call stays armed. When the 300 ms have passed and the query
  is not empty, the fetch is sent; it is the search for the current query and requests
  the inclusive row range from \<open>(page - 1) * 12\<close> to \<open>page * 12 - 1\<close> of the new page.
\<close>

theorem C6_page_change_is_debounced:
  assumes "p \<noteq> page (view w)"
  shows "page (view (setPage p w)) = p \<and>
         inflight (setPage p w) = inflight w \<and> next_id (setPage p w) = next_id w \<and>
         pending (setPage p w) = Some (clock w + 300, query_param (view w)) \<and>
         (d < 300 \<longrightarrow> pending (tick d (setPage p w)) = Some (clock w + 300, query_param (view w))) \<and>
         (query_param (view w) \<noteq> [] \<longrightarrow>
            inflight (tick 300 (setPage p w)) \<noteq> [] \<and>
            fst (snd (last (inflight (tick 300 (setPage p w))))) = SearchFetch \<and>
            rq_textSearch (snd (snd (last (inflight (tick 300 (setPage p w))))))
              = (''title'', query_param (view w)) \<and>
            rq_range (snd (snd (last (inflight (tick 300 (setPage p w))))))
              = Some ((p - 1) * 12, p * 12 - 1))"
proof -
  let ?s = "(view w)\<lparr>page := p\<rparr>"
  have ch: "page ?s \<noteq> page (view w)"
    using assms by simp
  have q: "query_param ?s = query_param (view w)"
    by (simp add: query_param_def)
  have "pending (tick d (setPage p w)) = Some (clock w + 300, query_param (view w))" if "d < 300"
    using tick_page_armed [OF ch, of d] that q by (simp add: setPage_def DEBOUNCE_WAIT_def)
  moreover have "inflight (tick 300 (setPage p w)) \<noteq> [] \<and>
      snd (last (inflight (tick 300 (setPage p w)))) = (SearchFetch, search_request ?s (query_param (view w)))"
    if "query_param (view w) \<noteq> []"
    using tick_page_fetch [OF ch] that q by (simp add: setPage_def DEBOUNCE_WAIT_def)
  moreover have "pending (setPage p w) = Some (clock w + 300, query_param (view w))"
    using commit_page_changed [OF ch] q by (simp add: setPage_def DEBOUNCE_WAIT_def)
  ultimately show ?thesis
    by (simp add: setPage_def commit_frame search_request_def ITEMS_PER_PAGE_def)
qed

text \<open>
  Witness for C6: the first page of thirteen results for \<open>lamp\<close> is on display at time
  300 and the visitor presses Next. Nothing is sent at once; 300 ms later call 1 asks for
  the rows 12 to 23.
\<close>

theorem C6_page_change_is_debounced_witness:
  "2 \<noteq> page (view (run (take 2 next_page_trace) (mount (Some (str ''lamp''))))) \<and>
   query_param (view (run (take 2 next_page_trace) (mount (Some (str ''lamp''))))) = str ''lamp'' \<and>
   str ''lamp'' \<noteq> [] \<and>
   step (run (take 2 next_page_trace) (mount (Some (str ''lamp'')))) NextButton
     = setPage 2 (run (take 2 next_page_trace) (mount (Some (str ''lamp'')))) \<and>
   inflight (setPage 2 (run (take 2 next_page_trace) (mount (Some (str ''lamp''))))) = [] \<and>
   pending (setPage 2 (run (take 2 next_page_trace) (mount (Some (str ''lamp'')))))
     = Some (600, str ''lamp'') \<and>
   pending (tick 299 (setPage 2 (run (take 2 next_page_trace) (mount (Some (str ''lamp''))))))
     = Some (600, str ''lamp'') \<and>
   rq_range (snd (snd (last (inflight
      (tick 300 (setPage 2 (run (take 2 next_page_trace) (mount (Some (str ''lamp'')))))))))) = Some (12, 23)"
proof -
  let ?w = "run (take 2 next_page_trace) (mount (Some (str ''lamp'')))"
  have p: "2 \<noteq> page (view ?w)"
    by (simp add: next_page_trace_def world_defs)
  have q: "query_param (view ?w) = str ''lamp''"
    by (simp add: next_page_trace_def world_defs)
  have n: "str ''lamp'' \<noteq> []"
    by (simp add: str_def)
  have c: "clock ?w = 300" and i: "inflight ?w = []"
    by (simp_all add: next_page_trace_def world_defs)
  have s: "step ?w NextButton = setPage 2 ?w"
    by (simp add: next_page_trace_def world_defs)
  have d: "(299::nat) < 300"
    by simp
  from C6_page_change_is_debounced [OF p, of 299] p q n c i s d show ?thesis
    by simp
qed

text \<open>
  Counterexample to C6 as stated: the visitor presses Next at time 300, and 299 ms later
  the page number is 2 but no fetch for it has been sent: nothing is in flight, only the
  first call has ever been issued, and the debounced call is still armed for time 600.
\<close>

theorem C6_counterexample:
  "clock (run (take 3 next_page_trace) (mount (Some (str ''lamp'')))) = 300 \<and>
   page (view (run (take 3 next_page_trace) (mount (Some (str ''lamp''))))) = 2 \<and>
   inflight (run (take 3 next_page_trace) (mount (Some (str ''lamp'')))) = [] \<and>
   clock (run next_page_trace (mount (Some (str ''lamp'')))) = 599 \<and>
   page (view (run next_page_trace (mount (Some (str ''lamp''))))) = 2 \<and>
   inflight (run next_page_trace (mount (Some (str ''lamp'')))) = [] \<and>
   next_id (run next_page_trace (mount (Some (str ''lamp'')))) = 1 \<and>
   pending (run next_page_trace (mount (Some (str ''lamp'')))) = Some (600, str ''lamp'')"
  by (simp add: next_page_trace_def world_defs)

subsection \<open>Suggestions\<close>




subsection \<open>A new query starts on page 1\<close>

text \<open>
  Claim C10. Every change of the query text through the search path, by typing in the
  search box or by choosing a suggestion, sets the page to 1. The search armed for a new
  query text runs in a scope whose page is 1, so the request it sends asks for the rows 0
  to 11 and not for an offset left over from the previous query.
\<close>

theorem C10_new_query_on_page_one:
  "page (handleSearch q s) = 1 \<and>
   page (view (input_onChange q w)) = 1 \<and>
   page (view (suggestion_onClick q w)) = 1 \<and>
   (scope_current w \<longrightarrow>
      page (cb_scope (input_onChange q w)) = 1 \<and>
      page (cb_scope (suggestion_onClick q w)) = 1 \<and>
      rq_range (search_request (cb_scope (input_onChange q w)) q) = Some (0, 11) \<and>
      rq_range (search_request (cb_scope (suggestion_onClick q w)) q) = Some (0, 11)) \<and>
   (searchParams (view w) \<noteq> Some q \<longrightarrow>
      pending (input_onChange q w) = Some (clock w + 300, q) \<and>
      pending (suggestion_onClick q w) = Some (clock w + 300, q))"
proof -
  have "page (cb_scope (input_onChange q w)) = 1 \<and> page (cb_scope (suggestion_onClick q w)) = 1"
    if "scope_current w"
    using that
    by (simp add: input_onChange_scope suggestion_onClick_def commit_scope_page handleSearch_def)
  moreover have "pending (input_onChange q w) = Some (clock w + 300, q) \<and>
      pending (suggestion_onClick q w) = Some (clock w + 300, q)"
    if "searchParams (view w) \<noteq> Some q"
    using input_onChange_pending [OF that] suggestion_onClick_pending [OF that]
    by (simp add: DEBOUNCE_WAIT_def)
  moreover have "page (view (input_onChange q w)) = 1"
    by (simp add: input_onChange_view handleSearch_def)
  ultimately show ?thesis
    by (simp add: handleSearch_def suggestion_onClick_def commit_frame search_request_def
        ITEMS_PER_PAGE_def)
qed

text \<open>
  Witness for C10: the visitor is on page 2 of the results for \<open>lamp\<close> and types \<open>sofa\<close>.
\<close>

theorem C10_new_query_on_page_one_witness:
  "scope_current (run (next_page_trace @ [Tick 1]) (mount (Some (str ''lamp'')))) \<and>
   page (view (run (next_page_trace @ [Tick 1]) (mount (Some (str ''lamp''))))) = 2 \<and>
   searchParams (view (run (next_page_trace @ [Tick 1]) (mount (Some (str ''lamp''))))) \<noteq> Some (str ''sofa'') \<and>
   page (view (input_onChange (str ''sofa'') (run (next_page_trace @ [Tick 1]) (mount (Some (str ''lamp'')))))) = 1 \<and>
   pending (input_onChange (str ''sofa'') (run (next_page_trace @ [Tick 1]) (mount (Some (str ''lamp'')))))
     = Some (900, str ''sofa'') \<and>
   rq_range (search_request
     (cb_scope (input_onChange (str ''sofa'') (run (next_page_trace @ [Tick 1]) (mount (Some (str ''lamp''))))))
     (str ''sofa'')) = Some (0, 11)"
proof -
  let ?w = "run (next_page_trace @ [Tick 1]) (mount (Some (str ''lamp'')))"
  have sc: "scope_current ?w"
    by (rule run_scope_current [OF mount_scope_current])
  have p: "page (view ?w) = 2" and c: "clock ?w = 600"
    by (simp_all add: next_page_trace_def world_defs)
  have n: "searchParams (view ?w) \<noteq> Some (str ''sofa'')"
    by (simp add: next_page_trace_def world_defs)
  from C10_new_query_on_page_one [of "str ''sofa''" _ ?w] sc p c n show ?thesis
    by simp
qed

end
